theory Spec2Isabelle
  imports Main
begin

section \<open>The axis atom of cvxpy/atoms/axis\_atom.py\<close>

text \<open>
  The class \<^verbatim>\<open>AxisAtom\<close> stores an axis and one argument expression. Of the argument
  only its size \<^verbatim>\<open>self.args[0].size\<close> is read, a pair (m, n). The axis is whatever the
  constructor was given: \<^verbatim>\<open>None\<close> or a Python integer.
\<close>

record axis_atom =
  axis :: "int option"
  arg_size :: "nat \<times> nat"

text \<open>The exceptions that the method bodies and the library calls in them can raise.\<close>

datatype error = ValueError | AttributeError | IndexError

subsection \<open>Shape, data and validation\<close>

text \<open>
  \<^verbatim>\<open>
  def size_from_args(self):
      if self.axis is None:
          return (1, 1)
      elif self.axis == 0:
          return (1, self.args[0].size[1])
      else:  # axis == 1.
          return (self.args[0].size[0], 1)
  \<close>
\<close>

definition size_from_args :: "axis_atom \<Rightarrow> nat \<times> nat" where
  "size_from_args self =
     (case axis self of
        None \<Rightarrow> (1, 1)
      | Some a \<Rightarrow> if a = 0 then (1, snd (arg_size self)) else (fst (arg_size self), 1))"

text \<open>\<^verbatim>\<open>def get_data(self): return [self.axis]\<close>\<close>

definition get_data :: "axis_atom \<Rightarrow> int option list" where
  "get_data self = [axis self]"

text \<open>
  \<^verbatim>\<open>
  def validate_arguments(self):
      if self.axis is not None and self.axis not in [0, 1]:
          raise ValueError("Invalid argument for axis.")
  \<close>
\<close>

definition validate_arguments :: "axis_atom \<Rightarrow> error + unit" where
  "validate_arguments self =
     (if axis self \<noteq> None \<and> axis self \<notin> set [Some 0, Some 1] then Inl ValueError
      else Inr ())"

subsection \<open>Arrays and sparse matrices\<close>

text \<open>
  A two-dimensional numpy array is the list of its rows, all of one length. A sparse
  matrix of scipy is its shape and its entry at every position, zero where nothing is
  stored. The entries are numbers with a zero and an addition.
\<close>

type_synonym 'a ndarray = "'a list list"

record 'a sparse =
  shape :: "nat \<times> nat"
  el :: "nat \<Rightarrow> nat \<Rightarrow> 'a"

definition wf_array :: "nat \<Rightarrow> nat \<Rightarrow> 'a ndarray \<Rightarrow> bool" where
  "wf_array m n V \<longleftrightarrow> length V = m \<and> (\<forall>r \<in> set V. length r = n)"

definition ncols :: "'a ndarray \<Rightarrow> nat" where
  "ncols V = (case V of [] \<Rightarrow> 0 | r # _ \<Rightarrow> length r)"

text \<open>\<^verbatim>\<open>V.T\<close> and \<^verbatim>\<open>np.transpose(V)\<close>: row j of the result is column j of V.\<close>

definition np_transpose :: "'a ndarray \<Rightarrow> 'a ndarray" where
  "np_transpose V = map (\<lambda>j. map (\<lambda>r. r ! j) V) [0..<ncols V]"

definition bindE :: "error + 'b \<Rightarrow> ('b \<Rightarrow> error + 'c) \<Rightarrow> error + 'c" where
  "bindE r f = (case r of Inl e \<Rightarrow> Inl e | Inr x \<Rightarrow> f x)"

text \<open>\<^verbatim>\<open>xs[0]\<close>, used for \<^verbatim>\<open>values[0]\<close> and for \<^verbatim>\<open>np.array(d)[0]\<close>.\<close>

definition subscript0 :: "'b list \<Rightarrow> error + 'b" where
  "subscript0 xs = (case xs of [] \<Rightarrow> Inl IndexError | x # _ \<Rightarrow> Inr x)"

text \<open>\<^verbatim>\<open>V[:, i]\<close>: column i, an IndexError when the array has no such column.\<close>

definition take_column :: "'a ndarray \<Rightarrow> nat \<Rightarrow> error + 'a list" where
  "take_column V i = (if i < ncols V then Inr (map (\<lambda>r. r ! i) V) else Inl IndexError)"

text \<open>
  \<^verbatim>\<open>np.reshape(A, (k, 1))\<close>: the entries of A row by row, a ValueError when A does not
  hold k entries. The result is handed to the primitive as a vector.
\<close>

definition reshape_column :: "'a ndarray \<Rightarrow> nat \<Rightarrow> error + 'a list" where
  "reshape_column A k = (if length (concat A) = k then Inr (concat A) else Inl ValueError)"

text \<open>
  The attribute \<^verbatim>\<open>.T\<close> of what the primitive returned. The primitive returns an array
  or \<^verbatim>\<open>None\<close>; \<^verbatim>\<open>None\<close> has no attribute \<^verbatim>\<open>T\<close>, so Python raises AttributeError.
\<close>

definition T_attr :: "'a ndarray option \<Rightarrow> error + 'a ndarray option" where
  "T_attr g = (case g of None \<Rightarrow> Inl AttributeError | Some G \<Rightarrow> Inr (Some (np_transpose G)))"

text \<open>
  \<^verbatim>\<open>np.linspace(start, stop, num)\<close>: num evenly spaced values from start to stop. Both
  calls of the source have stop - start a multiple of num - 1, so the spacing is the
  integer quotient and the values are the whole numbers scipy indexes with.
\<close>

definition linspace :: "nat \<Rightarrow> nat \<Rightarrow> nat \<Rightarrow> nat list" where
  "linspace start stop num =
     (if num = 1 then [start]
      else map (\<lambda>k. start + k * ((stop - start) div (num - 1))) [0..<num])"

text \<open>\<^verbatim>\<open>sp.csc_matrix((M, N))\<close>: the empty matrix of that shape.\<close>

definition csc_zeros :: "nat \<times> nat \<Rightarrow> ('a::monoid_add) sparse" where
  "csc_zeros s = \<lparr>shape = s, el = (\<lambda>r c. 0)\<rparr>"

text \<open>\<^verbatim>\<open>sp.csc_matrix(G)\<close> of a dense array G.\<close>

definition csc_of_dense :: "('a::monoid_add) ndarray \<Rightarrow> 'a sparse" where
  "csc_of_dense G =
     \<lparr>shape = (length G, ncols G),
      el = (\<lambda>r c. if r < length G \<and> c < length (G ! r) then G ! r ! c else 0)\<rparr>"

text \<open>
  \<^verbatim>\<open>sp.csc_matrix((data, (row, col)), shape=(M, N))\<close>: scipy raises ValueError when the
  three sequences differ in length or an index lies outside the shape; entries given
  for the same position are summed.
\<close>

definition csc_of_coo ::
  "('a::monoid_add) list \<Rightarrow> nat list \<Rightarrow> nat list \<Rightarrow> nat \<times> nat \<Rightarrow> error + 'a sparse" where
  "csc_of_coo data row col s =
     (if length row \<noteq> length data \<or> length col \<noteq> length data then Inl ValueError
      else if (\<exists>r \<in> set row. fst s \<le> r) \<or> (\<exists>c \<in> set col. snd s \<le> c) then Inl ValueError
      else Inr \<lparr>shape = s,
                el = (\<lambda>r c. sum_list (map (\<lambda>k. data ! k)
                        (filter (\<lambda>k. row ! k = r \<and> col ! k = c) [0..<length data])))\<rparr>)"

text \<open>\<^verbatim>\<open>A + B\<close> on sparse matrices: entrywise, a ValueError when the shapes differ.\<close>

definition sp_add :: "('a::monoid_add) sparse \<Rightarrow> 'a sparse \<Rightarrow> error + 'a sparse" where
  "sp_add A B =
     (if shape A = shape B then Inr \<lparr>shape = shape A, el = (\<lambda>r c. el A r c + el B r c)\<rparr>
      else Inl ValueError)"

subsection \<open>Gradient assembly\<close>

text \<open>
  A \<^verbatim>\<open>for\<close> loop over indices whose body either raises, leaves the function with
  \<^verbatim>\<open>return [None]\<close> (the value \<open>None\<close> here) or goes on with a new accumulator.
\<close>

fun for_loop :: "(nat \<Rightarrow> 's \<Rightarrow> error + 's option) \<Rightarrow> nat list \<Rightarrow> 's \<Rightarrow> error + 's option" where
  "for_loop body [] D = Inr (Some D)"
| "for_loop body (i # is) D =
     (case body i D of
        Inl e \<Rightarrow> Inl e
      | Inr None \<Rightarrow> Inr None
      | Inr (Some D') \<Rightarrow> for_loop body is D')"

text \<open>
  The body of the loop of axis 0:
  \<^verbatim>\<open>
  value = values[0][:, i]
  d = self._column_grad(value).T
  if d is None:
      return [None]
  row = np.linspace(i*n, i*n+m-1, m)  # [i*n, i*n+1, ..., i*n+m-1]
  col = np.ones((m))*i
  D = D + sp.csc_matrix((np.array(d)[0], (row, col)),
                        shape=(m*n, n))  # d must be 1-D
  \<close>
  The primitive \<^verbatim>\<open>_column_grad\<close> is a method of the subclass and a parameter here.
\<close>

definition column_body ::
  "('a list \<Rightarrow> ('a::monoid_add) ndarray option) \<Rightarrow> nat \<Rightarrow> nat \<Rightarrow> 'a ndarray list \<Rightarrow>
   nat \<Rightarrow> 'a sparse \<Rightarrow> error + 'a sparse option" where
  "column_body column_grad m n values i D =
     bindE (subscript0 values) (\<lambda>V.
     bindE (take_column V i) (\<lambda>value.
     bindE (T_attr (column_grad value)) (\<lambda>d.
       case d of
         None \<Rightarrow> Inr None
       | Some d' \<Rightarrow>
           bindE (subscript0 d') (\<lambda>data.
           bindE (csc_of_coo data (linspace (i * n) (i * n + m - 1) m) (replicate m i) (m * n, n)) (\<lambda>E.
           bindE (sp_add D E) (\<lambda>D'. Inr (Some D')))))))"

text \<open>
  The body of the loop of axis 1, on the transposed value:
  \<^verbatim>\<open>
  value = values[:, i]
  d = self._column_grad(value).T
  if d is None:
      return [None]
  row = np.linspace(i, i+(n-1)*m, n)  # [0+i, m+i, ..., m(n-1)+i]
  col = np.ones((n))*i
  D = D + sp.csc_matrix((np.array(d)[0], (row, col)),
                        shape=(m*n, m))  # d must be 1-D
  \<close>
\<close>

definition row_body ::
  "('a list \<Rightarrow> ('a::monoid_add) ndarray option) \<Rightarrow> nat \<Rightarrow> nat \<Rightarrow> 'a ndarray \<Rightarrow>
   nat \<Rightarrow> 'a sparse \<Rightarrow> error + 'a sparse option" where
  "row_body column_grad m n values i D =
     bindE (take_column values i) (\<lambda>value.
     bindE (T_attr (column_grad value)) (\<lambda>d.
       case d of
         None \<Rightarrow> Inr None
       | Some d' \<Rightarrow>
           bindE (subscript0 d') (\<lambda>data.
           bindE (csc_of_coo data (linspace i (i + (n - 1) * m) n) (replicate n i) (m * n, m)) (\<lambda>E.
           bindE (sp_add D E) (\<lambda>D'. Inr (Some D'))))))"

text \<open>
  \<^verbatim>\<open>_axis_grad(self, values)\<close>. With no axis the primitive is applied once, to the
  transposed value reshaped to a column, and its result converted to a sparse matrix
  unless it is \<^verbatim>\<open>None\<close>. Otherwise one of the two loops runs, from the empty matrix, over
  \<^verbatim>\<open>range(n)\<close> or \<^verbatim>\<open>range(m)\<close>. The method returns a one-element list.
\<close>

definition axis_grad ::
  "axis_atom \<Rightarrow> ('a list \<Rightarrow> ('a::monoid_add) ndarray option) \<Rightarrow> 'a ndarray list \<Rightarrow>
   error + 'a sparse option list" where
  "axis_grad self column_grad values =
     (let m = fst (arg_size self); n = snd (arg_size self) in
      case axis self of
        None \<Rightarrow>
          bindE (subscript0 values) (\<lambda>V.
          bindE (reshape_column (np_transpose V) (m * n)) (\<lambda>value.
            Inr [map_option csc_of_dense (column_grad value)]))
      | Some a \<Rightarrow>
          if a = 0 then
            bindE (for_loop (column_body column_grad m n values) [0..<n] (csc_zeros (m * n, n)))
              (\<lambda>D. Inr [D])
          else
            bindE (subscript0 values) (\<lambda>V.
            bindE (for_loop (row_body column_grad m n (np_transpose V)) [0..<m] (csc_zeros (m * n, m)))
              (\<lambda>D. Inr [D])))"

text \<open>
  What the specification asks of a primitive: for a vector of k numbers, a gradient is
  a column of k numbers.
\<close>

definition column_grad_contract :: "('a list \<Rightarrow> 'a ndarray option) \<Rightarrow> bool" where
  "column_grad_contract g \<longleftrightarrow>
     (\<forall>v G. g v = Some G \<longrightarrow> length G = length v \<and> (\<forall>r \<in> set G. length r = 1))"

section \<open>Facts about the arrays, the index sequences and the loop\<close>

lemmas model_defs = axis_grad_def column_body_def row_body_def bindE_def subscript0_def take_column_def
  T_attr_def np_transpose_def ncols_def linspace_def csc_of_coo_def sp_add_def csc_zeros_def reshape_column_def csc_of_dense_def

lemma ncols_wf: "wf_array m n V \<Longrightarrow> 0 < m \<Longrightarrow> ncols V = n"
  by (cases V) (auto simp: wf_array_def ncols_def)

lemma length_np_transpose: "length (np_transpose V) = ncols V"
  by (simp add: np_transpose_def)

lemma nth_np_transpose: "j < ncols V \<Longrightarrow> np_transpose V ! j = map (\<lambda>r. r ! j) V"
  by (simp add: np_transpose_def)

lemma ncols_np_transpose: "0 < ncols V \<Longrightarrow> ncols (np_transpose V) = length V"
  by (cases "ncols V") (simp_all add: np_transpose_def ncols_def upt_rec)

lemma length_concat_uniform:
  "\<forall>xs \<in> set xss. length xs = m \<Longrightarrow> length (concat xss) = length xss * m"
  by (induction xss) simp_all

lemma nth_concat_uniform:
  "\<forall>xs \<in> set xss. length xs = m \<Longrightarrow> c < length xss \<Longrightarrow> r < m \<Longrightarrow>
   concat xss ! (c * m + r) = xss ! c ! r"
proof (induction xss arbitrary: c)
  case Nil
  then show ?case by simp
next
  case (Cons xs xss)
  show ?case
  proof (cases c)
    case 0
    with Cons.prems show ?thesis by (simp add: nth_append)
  next
    case (Suc c')
    with Cons.prems have "concat xss ! (c' * m + r) = xss ! c' ! r"
      by (intro Cons.IH) auto
    with Suc Cons.prems show ?thesis by (simp add: nth_append)
  qed
qed

lemma flatten_length: "wf_array m n V \<Longrightarrow> length (concat (np_transpose V)) = m * n"
proof (cases "m = 0")
  case True
  assume "wf_array m n V"
  with True show ?thesis by (simp add: wf_array_def np_transpose_def ncols_def)
next
  case False
  assume w: "wf_array m n V"
  with False have nc: "ncols V = n" by (simp add: ncols_wf)
  have "\<forall>xs \<in> set (np_transpose V). length xs = m"
    using w by (auto simp: np_transpose_def wf_array_def)
  from length_concat_uniform [OF this] show ?thesis
    by (simp add: length_np_transpose nc)
qed

lemma flatten_nth:
  assumes w: "wf_array m n V" and r: "r < m" and c: "c < n"
  shows "concat (np_transpose V) ! (c * m + r) = V ! r ! c"
proof -
  from w r have nc: "ncols V = n" by (simp add: ncols_wf)
  have u: "\<forall>xs \<in> set (np_transpose V). length xs = m"
    using w by (auto simp: np_transpose_def wf_array_def)
  have "concat (np_transpose V) ! (c * m + r) = np_transpose V ! c ! r"
    using u c r by (intro nth_concat_uniform) (simp_all add: length_np_transpose nc)
  also have "\<dots> = V ! r ! c"
    using w r c by (simp add: nth_np_transpose nc wf_array_def)
  finally show ?thesis .
qed

lemma linspace_stride: "linspace i (i + (n - 1) * m) n = map (\<lambda>k. i + k * m) [0..<n]"
proof (cases "n = 1")
  case True
  then show ?thesis by (simp add: linspace_def)
next
  case False
  then show ?thesis by (cases "n = 0") (simp_all add: linspace_def)
qed

lemma linspace_unit: "linspace (i * n) (i * n + m - 1) m = map (\<lambda>k. i * n + k) [0..<m]"
proof (cases "m = 1")
  case True
  then show ?thesis by (simp add: linspace_def)
next
  case False
  then show ?thesis by (cases "m = 0") (simp_all add: linspace_def)
qed

lemma filter_eq_upt: "filter (\<lambda>k. k = k0) [0..<len] = (if k0 < len then [k0] else [])"
  by (induction len) auto

lemma stride_eq_iff:
  fixes i :: nat
  assumes "i < m"
  shows "i + k * m = r \<longleftrightarrow> k = r div m \<and> r mod m = i"
  using assms by (auto simp: div_add1_eq)

lemma coo_stride_entry:
  fixes data :: "('a::monoid_add) list"
  assumes "i < m"
  shows "sum_list (map (\<lambda>k. data ! k)
           (filter (\<lambda>k. map (\<lambda>k. i + k * m) [0..<length data] ! k = r
                       \<and> replicate (length data) i ! k = c) [0..<length data]))
         = (if c = i \<and> r mod m = i \<and> r div m < length data then data ! (r div m) else 0)"
proof -
  have "filter (\<lambda>k. map (\<lambda>k. i + k * m) [0..<length data] ! k = r
                       \<and> replicate (length data) i ! k = c) [0..<length data]
        = filter (\<lambda>k. i + k * m = r \<and> i = c) [0..<length data]"
    by (rule filter_cong) auto
  also have "\<dots> = (if c = i \<and> r mod m = i then filter (\<lambda>k. k = r div m) [0..<length data] else [])"
    using assms by (auto simp: stride_eq_iff intro!: filter_cong)
  finally show ?thesis by (simp add: filter_eq_upt)
qed

lemma for_loop_snoc:
  "for_loop body (xs @ [x]) D =
     (case for_loop body xs D of
        Inl e \<Rightarrow> Inl e
      | Inr None \<Rightarrow> Inr None
      | Inr (Some D') \<Rightarrow> body x D')"
  by (induction xs arbitrary: D) (auto split: sum.splits option.splits)

lemma take_column_transpose:
  assumes w: "wf_array m n V" and i: "i < m" and n: "0 < n"
  shows "take_column (np_transpose V) i = Inr (V ! i)"
proof -
  from w i have nc: "ncols V = n" by (simp add: ncols_wf)
  with n w have nt: "ncols (np_transpose V) = m" by (simp add: ncols_np_transpose wf_array_def)
  from w i have li: "length (V ! i) = n" by (simp add: wf_array_def)
  have "map (\<lambda>r. r ! i) (np_transpose V) = map (\<lambda>j. V ! i ! j) [0..<n]"
    using w i by (simp add: np_transpose_def nc wf_array_def)
  also have "\<dots> = V ! i" using li map_nth [of "V ! i"] by simp
  finally show ?thesis using i nt by (simp add: take_column_def)
qed

lemma stride_in_range:
  fixes i :: nat
  assumes "i < m" "k < n"
  shows "i + k * m < m * n"
proof -
  have "i + k * m < Suc k * m" using assms by simp
  also have "\<dots> \<le> n * m" using assms by (intro mult_le_mono1) simp
  finally show ?thesis by (simp add: mult.commute)
qed

lemma row_body_step:
  fixes D :: "('a::monoid_add) sparse"
  assumes "take_column VT i = Inr vec" and "column_grad vec = Some G"
    and "subscript0 (np_transpose G) = Inr dat" and "length dat = n"
    and "i < m" and "shape D = (m * n, m)"
  shows "row_body column_grad m n VT i D =
           Inr (Some \<lparr>shape = (m * n, m),
                 el = (\<lambda>r c. el D r c +
                   (if c = i \<and> r mod m = i \<and> r div m < n then dat ! (r div m) else 0))\<rparr>)"
proof -
  have rng: "\<not> ((\<exists>r \<in> set (map (\<lambda>k. i + k * m) [0..<n]). m * n \<le> r)
               \<or> (\<exists>c \<in> set (replicate n i). m \<le> c))"
    using assms(5) stride_in_range [of i m _ n] by (auto simp: not_le)
  have "csc_of_coo dat (linspace i (i + (n - 1) * m) n) (replicate n i) (m * n, m)
        = Inr \<lparr>shape = (m * n, m),
               el = (\<lambda>r c. if c = i \<and> r mod m = i \<and> r div m < n then dat ! (r div m) else 0)\<rparr>"
    using rng assms(4) coo_stride_entry [OF assms(5), of dat]
    unfolding csc_of_coo_def linspace_stride by simp
  then show ?thesis
    using assms(1,2,3,6) by (simp add: row_body_def bindE_def T_attr_def sp_add_def)
qed

lemma row_loop_prefix:
  fixes d :: "nat \<Rightarrow> ('a::monoid_add) list"
  assumes sl: "\<forall>i<m. \<exists>vec G. take_column VT i = Inr vec \<and> column_grad vec = Some G
                 \<and> subscript0 (np_transpose G) = Inr (d i) \<and> length (d i) = n"
    and j: "j \<le> m"
  shows "for_loop (row_body column_grad m n VT) [0..<j] (csc_zeros (m * n, m)) =
           Inr (Some \<lparr>shape = (m * n, m),
                 el = (\<lambda>r c. if c < j \<and> r mod m = c \<and> r div m < n then d c ! (r div m) else 0)\<rparr>)"
  using j
proof (induction j)
  case 0
  show ?case by (simp add: csc_zeros_def)
next
  case (Suc j)
  then have jm: "j < m" by simp
  with sl obtain vec G where s: "take_column VT j = Inr vec" "column_grad vec = Some G"
      "subscript0 (np_transpose G) = Inr (d j)" "length (d j) = n"
    by blast
  let ?D = "\<lparr>shape = (m * n, m),
              el = (\<lambda>r c. if c < j \<and> r mod m = c \<and> r div m < n then d c ! (r div m) else 0)\<rparr>"
  have pre: "for_loop (row_body column_grad m n VT) [0..<j] (csc_zeros (m * n, m)) = Inr (Some ?D)"
    using Suc by simp
  have st: "row_body column_grad m n VT j ?D =
           Inr (Some \<lparr>shape = (m * n, m),
                 el = (\<lambda>r c. el ?D r c +
                   (if c = j \<and> r mod m = j \<and> r div m < n then d j ! (r div m) else 0))\<rparr>)"
    using s jm
    by (intro row_body_step [where vec = vec and G = G and column_grad = column_grad]) simp_all
  have "(\<lambda>r c. el ?D r c + (if c = j \<and> r mod m = j \<and> r div m < n then d j ! (r div m) else 0))
        = (\<lambda>r c. if c < Suc j \<and> r mod m = c \<and> r div m < n then d c ! (r div m) else 0)"
    by (intro ext) (auto simp: less_Suc_eq)
  with st pre show ?case by (simp add: for_loop_snoc)
qed

lemma for_loop_shape:
  assumes "for_loop body xs D = Inr (Some D')"
    and "\<And>i A B. body i A = Inr (Some B) \<Longrightarrow> shape B = shape A"
  shows "shape D' = shape D"
  using assms(1)
proof (induction xs arbitrary: D)
  case Nil
  then show ?case by simp
next
  case (Cons x xs)
  then obtain D1 where b: "body x D = Inr (Some D1)" and l: "for_loop body xs D1 = Inr (Some D')"
    by (auto split: sum.splits option.splits)
  from Cons.IH [OF l] assms(2) [OF b] show ?case by simp
qed

lemma column_body_shape:
  "column_body column_grad m n values i A = Inr (Some B) \<Longrightarrow> shape B = shape A"
  by (auto simp: column_body_def bindE_def sp_add_def split: sum.splits option.splits if_splits)

lemma row_body_shape:
  "row_body column_grad m n VT i A = Inr (Some B) \<Longrightarrow> shape B = shape A"
  by (auto simp: row_body_def bindE_def sp_add_def split: sum.splits option.splits if_splits)

lemma contract_shape:
  assumes "column_grad_contract g" and "g v = Some G" and "0 < length v"
  shows "shape (csc_of_dense G) = (length v, 1)"
proof -
  from assms(1,2) have l: "length G = length v" and r: "\<forall>r \<in> set G. length r = 1"
    by (auto simp: column_grad_contract_def)
  with assms(3) have "ncols G = 1" by (cases G) (auto simp: ncols_def)
  with l show ?thesis by (simp add: csc_of_dense_def)
qed

lemma column_body_not_None: "column_body column_grad m n values i D \<noteq> Inr None"
  by (auto simp: column_body_def bindE_def T_attr_def split: sum.splits option.splits)

lemma row_body_not_None: "row_body column_grad m n VT i D \<noteq> Inr None"
  by (auto simp: row_body_def bindE_def T_attr_def split: sum.splits option.splits)

lemma for_loop_not_None:
  "(\<And>i A. body i A \<noteq> Inr None) \<Longrightarrow> for_loop body xs D \<noteq> Inr None"
  by (induction xs arbitrary: D) (auto split: sum.splits option.splits)

lemma column_loop_not_None:
  "for_loop (column_body column_grad m n values) xs D \<noteq> Inr None"
  by (rule for_loop_not_None) (rule column_body_not_None)

lemma row_loop_not_None:
  "for_loop (row_body column_grad m n VT) xs D \<noteq> Inr None"
  by (rule for_loop_not_None) (rule row_body_not_None)

lemma axis_grad_never_signals:
  assumes "axis self = Some a"
  shows "axis_grad self column_grad values \<noteq> Inr [None]"
proof
  assume r: "axis_grad self column_grad values = Inr [None]"
  show False
  proof (cases "a = 0")
    case True
    with assms r have "for_loop (column_body column_grad (fst (arg_size self)) (snd (arg_size self)) values)
        [0..<snd (arg_size self)]
        (csc_zeros (fst (arg_size self) * snd (arg_size self), snd (arg_size self))) = Inr None"
      by (simp add: axis_grad_def bindE_def Let_def split: sum.splits)
    with column_loop_not_None show False by blast
  next
    case False
    with assms r obtain V where "for_loop (row_body column_grad (fst (arg_size self)) (snd (arg_size self))
          (np_transpose V)) [0..<fst (arg_size self)]
        (csc_zeros (fst (arg_size self) * snd (arg_size self), fst (arg_size self))) = Inr None"
      by (auto simp: axis_grad_def bindE_def Let_def split: sum.splits)
    with row_loop_not_None show False by blast
  qed
qed

text \<open>
  The row ranges of axis 0 start at i * n. On an operand with more rows than columns
  the ranges of slices 0 and 1 share row n; on one with more columns than rows the range
  of the last slice starts outside the m * n rows of the matrix.
\<close>

lemma axis0_rows_shared:
  assumes "n < m"
  shows "n \<in> set (linspace (0 * n) (0 * n + m - 1) m) \<inter> set (linspace (1 * n) (1 * n + m - 1) m)"
proof -
  have "n \<in> (\<lambda>k. 0 * n + k) ` {0..<m}" using assms by auto
  moreover have "n \<in> (\<lambda>k. 1 * n + k) ` {0..<m}" using assms by (intro image_eqI [of _ _ 0]) auto
  ultimately show ?thesis unfolding linspace_unit by simp
qed

lemma axis0_rows_outside:
  assumes "m < n" and "0 < m"
  shows "\<exists>r \<in> set (linspace ((n - 1) * n) ((n - 1) * n + m - 1) m). m * n \<le> r"
proof -
  have "m * n \<le> (n - 1) * n" using assms by simp
  moreover have "(n - 1) * n \<in> set (linspace ((n - 1) * n) ((n - 1) * n + m - 1) m)"
    unfolding linspace_unit using assms by (auto intro: image_eqI [of _ _ 0])
  ultimately show ?thesis by blast
qed

section \<open>Shape inference\<close>

text \<open>
  C4. For an operand of shape (m, n), \<open>size_from_args\<close> gives (1, 1) when the axis is
  None, (1, n) when it is 0 and (m, 1) when it is 1. The model is a total function from
  the instance to a pair: there is no state to change and no error value in its type.
\<close>

theorem size_from_args_table:
  "size_from_args \<lparr>axis = None, arg_size = (m, n)\<rparr> = (1, 1)
   \<and> size_from_args \<lparr>axis = Some 0, arg_size = (m, n)\<rparr> = (1, n)
   \<and> size_from_args \<lparr>axis = Some 1, arg_size = (m, n)\<rparr> = (m, 1)"
  by (simp add: size_from_args_def)

text \<open>
  C10. Every axis that is neither None nor 0, the values that validation rejects
  included, is given the shape of axis 1, (m, 1).
\<close>

theorem size_from_args_other_axis:
  "a \<noteq> 0 \<Longrightarrow> size_from_args \<lparr>axis = Some a, arg_size = (m, n)\<rparr> = (m, 1)"
  by (simp add: size_from_args_def)

theorem size_from_args_other_axis_witness:
  "(2::int) \<noteq> 0 \<and> validate_arguments \<lparr>axis = Some 2, arg_size = (3, 5)\<rparr> = Inl ValueError
   \<and> size_from_args \<lparr>axis = Some 2, arg_size = (3, 5)\<rparr> = (3, 1)"
  using size_from_args_other_axis [of 2 3 5] by (simp add: validate_arguments_def)

section \<open>Validation\<close>

text \<open>
  C5. \<open>validate_arguments\<close> raises its error exactly when the stored axis is not one of
  None, 0, 1. The error is Python's ValueError.
\<close>

theorem validate_arguments_iff:
  "validate_arguments self = (if axis self \<in> {None, Some 0, Some 1} then Inr () else Inl ValueError)"
  by (simp add: validate_arguments_def)

section \<open>The axis tag\<close>

text \<open>
  C9. \<open>get_data\<close> returns the one-element list holding the stored axis, whatever that
  axis is.
\<close>

theorem get_data_singleton:
  "get_data self = [axis self] \<and> length (get_data self) = 1"
  by (simp add: get_data_def)

section \<open>Gradient assembly without an axis\<close>

text \<open>
  C6. With no axis and a value of the operand's shape (m, n), the result of \<open>axis_grad\<close>
  is the primitive's own output, applied once to the transposed value laid out row by
  row: a vector of m * n entries in which the entry of row r and column c of the operand
  stands at index c * m + r. The output is only converted to a sparse matrix: when the
  primitive returns an array G, the returned matrix has the shape of G, the entry of G at
  every position inside G and zero outside. When the primitive returns \<open>None\<close> the
  result is \<open>[None]\<close>.
\<close>

theorem axis_none_is_primitive:
  assumes "axis self = None" and "arg_size self = (m, n)" and "wf_array m n V"
  shows "axis_grad self column_grad (V # vs) =
           Inr [map_option csc_of_dense (column_grad (concat (np_transpose V)))]
         \<and> length (concat (np_transpose V)) = m * n
         \<and> (\<forall>r<m. \<forall>c<n. concat (np_transpose V) ! (c * m + r) = V ! r ! c)
         \<and> (column_grad (concat (np_transpose V)) = None \<longrightarrow>
              axis_grad self column_grad (V # vs) = Inr [None])
         \<and> (\<forall>G. column_grad (concat (np_transpose V)) = Some G \<longrightarrow>
              (\<exists>D. axis_grad self column_grad (V # vs) = Inr [Some D]
                 \<and> shape D = (length G, ncols G)
                 \<and> (\<forall>r<length G. \<forall>c<length (G ! r). el D r c = G ! r ! c)
                 \<and> (\<forall>r c. \<not> (r < length G \<and> c < length (G ! r)) \<longrightarrow> el D r c = 0)))"
proof -
  have l: "length (concat (np_transpose V)) = m * n"
    using assms(3) by (rule flatten_length)
  have e: "axis_grad self column_grad (V # vs) =
           Inr [map_option csc_of_dense (column_grad (concat (np_transpose V)))]"
    using assms(1,2) l by (simp add: axis_grad_def bindE_def subscript0_def reshape_column_def)
  have i: "\<forall>r<m. \<forall>c<n. concat (np_transpose V) ! (c * m + r) = V ! r ! c"
    using assms(3) by (simp add: flatten_nth)
  have g: "\<forall>G. column_grad (concat (np_transpose V)) = Some G \<longrightarrow>
              (\<exists>D. axis_grad self column_grad (V # vs) = Inr [Some D]
                 \<and> shape D = (length G, ncols G)
                 \<and> (\<forall>r<length G. \<forall>c<length (G ! r). el D r c = G ! r ! c)
                 \<and> (\<forall>r c. \<not> (r < length G \<and> c < length (G ! r)) \<longrightarrow> el D r c = 0))"
  proof (intro allI impI)
    fix G
    assume s: "column_grad (concat (np_transpose V)) = Some G"
    show "\<exists>D. axis_grad self column_grad (V # vs) = Inr [Some D]
                 \<and> shape D = (length G, ncols G)
                 \<and> (\<forall>r<length G. \<forall>c<length (G ! r). el D r c = G ! r ! c)
                 \<and> (\<forall>r c. \<not> (r < length G \<and> c < length (G ! r)) \<longrightarrow> el D r c = 0)"
    proof (intro exI [of _ "csc_of_dense G"] conjI)
      show "axis_grad self column_grad (V # vs) = Inr [Some (csc_of_dense G)]"
        using e s by simp
      show "shape (csc_of_dense G) = (length G, ncols G)"
        by (simp add: csc_of_dense_def)
      show "\<forall>r<length G. \<forall>c<length (G ! r). el (csc_of_dense G) r c = G ! r ! c"
        by (simp add: csc_of_dense_def)
      show "\<forall>r c. \<not> (r < length G \<and> c < length (G ! r)) \<longrightarrow> el (csc_of_dense G) r c = 0"
        by (simp add: csc_of_dense_def)
    qed
  qed
  from l e i g show ?thesis by simp
qed

theorem axis_none_is_primitive_witness:
  "wf_array 2 2 [[1, 2], [3, 4::int]]
   \<and> axis_grad \<lparr>axis = None, arg_size = (2, 2)\<rparr> (\<lambda>v. Some (map (\<lambda>x. [x]) v)) [[[1, 2], [3, 4::int]]]
       = Inr [Some (csc_of_dense [[1], [3], [2], [4]])]
   \<and> axis_grad \<lparr>axis = None, arg_size = (2, 2)\<rparr> (\<lambda>v. None) [[[1, 2], [3, 4::int]]]
       = Inr [None]
   \<and> (\<exists>D. axis_grad \<lparr>axis = None, arg_size = (2, 2)\<rparr> (\<lambda>v. Some (map (\<lambda>x. [x]) v))
             [[[1, 2], [3, 4::int]]] = Inr [Some D]
          \<and> shape D = (4, 1)
          \<and> el D 0 0 = 1 \<and> el D 1 0 = 3 \<and> el D 2 0 = 2 \<and> el D 3 0 = 4
          \<and> el D 0 1 = 0 \<and> el D 4 0 = 0)"
proof -
  let ?V = "[[1, 2], [3, 4::int]]"
  let ?self = "\<lparr>axis = None, arg_size = (2, 2)\<rparr>"
  let ?g = "\<lambda>v::int list. Some (map (\<lambda>x. [x]) v)"
  let ?G = "[[1], [3], [2], [4::int]]"
  have w: "wf_array 2 2 ?V" by (simp add: wf_array_def)
  have f: "concat (np_transpose ?V) = [1, 3, 2, 4]"
    by (simp add: np_transpose_def ncols_def upt_rec)
  have first: "axis_grad ?self ?g [?V] = Inr [Some (csc_of_dense ?G)]"
    using axis_none_is_primitive [of ?self 2 2 ?V ?g "[]"] w f by simp
  have second: "axis_grad ?self (\<lambda>v. None) [?V] = Inr [None]"
    using axis_none_is_primitive [of ?self 2 2 ?V "\<lambda>v. None" "[]"] w by simp
  have "?g (concat (np_transpose ?V)) = Some ?G" using f by simp
  with axis_none_is_primitive [of ?self 2 2 ?V ?g "[]"] w
  obtain D where r: "axis_grad ?self ?g [?V] = Inr [Some D]"
    and s: "shape D = (length ?G, ncols ?G)"
    and p: "\<forall>r<length ?G. \<forall>c<length (?G ! r). el D r c = ?G ! r ! c"
    and z: "\<forall>r c. \<not> (r < length ?G \<and> c < length (?G ! r)) \<longrightarrow> el D r c = 0"
    by auto
  from s have s': "shape D = (4, 1)" by (simp add: ncols_def)
  have e: "el D 0 0 = 1" "el D 1 0 = 3" "el D 2 0 = 2" "el D 3 0 = 4"
    using p [rule_format, of 0 0] p [rule_format, of 1 0] p [rule_format, of 2 0]
      p [rule_format, of 3 0]
    by (simp_all add: eval_nat_numeral)
  have o: "el D 0 1 = 0" "el D 4 0 = 0"
    using z [rule_format, of 0 1] z [rule_format, of 4 0] by simp_all
  from w first second r s' e o show ?thesis by blast
qed

section \<open>Gradient assembly along axis 1\<close>

text \<open>
  C3. With axis 1 and a value of shape (m, n), slice i of the transposed value is row i
  of the operand. When the primitive returns for every row i a gradient whose transpose
  has the first row \<open>d i\<close> of length n, \<open>axis_grad\<close> returns a matrix of shape
  (m * n, m) whose column i holds \<open>d i ! k\<close> at row i + k * m for every k below n, and
  zero in every other position.
\<close>

theorem axis1_placement:
  fixes d :: "nat \<Rightarrow> ('a::monoid_add) list"
  assumes "axis self = Some 1" and "arg_size self = (m, n)" and "wf_array m n V"
    and "0 < m" and "0 < n"
    and "\<forall>i<m. \<exists>G. column_grad (V ! i) = Some G
           \<and> subscript0 (np_transpose G) = Inr (d i) \<and> length (d i) = n"
  shows "take_column (np_transpose V) i = (if i < m then Inr (V ! i) else Inl IndexError)
    \<and> (\<exists>D. axis_grad self column_grad (V # vs) = Inr [Some D]
          \<and> shape D = (m * n, m)
          \<and> (\<forall>i<m. \<forall>k<n. el D (i + k * m) i = d i ! k)
          \<and> (\<forall>r c. (\<forall>k<n. r \<noteq> c + k * m) \<or> m \<le> c \<longrightarrow> el D r c = 0))"
proof -
  have tc: "\<forall>i<m. take_column (np_transpose V) i = Inr (V ! i)"
    using assms(3,5) by (simp add: take_column_transpose)
  have "ncols V = n" using assms(3,4) by (rule ncols_wf)
  then have nt: "ncols (np_transpose V) = m"
    using assms(3,5) by (simp add: ncols_np_transpose wf_array_def)
  have first: "take_column (np_transpose V) i = (if i < m then Inr (V ! i) else Inl IndexError)"
    using tc nt by (simp add: take_column_def)
  let ?D = "\<lparr>shape = (m * n, m),
              el = (\<lambda>r c. if c < m \<and> r mod m = c \<and> r div m < n then d c ! (r div m) else 0)\<rparr>"
  have sl: "\<forall>i<m. \<exists>vec G. take_column (np_transpose V) i = Inr vec \<and> column_grad vec = Some G
                 \<and> subscript0 (np_transpose G) = Inr (d i) \<and> length (d i) = n"
    using tc assms(6) by simp
  have "for_loop (row_body column_grad m n (np_transpose V)) [0..<m] (csc_zeros (m * n, m))
        = Inr (Some ?D)"
    by (rule row_loop_prefix [OF sl]) simp
  then have r: "axis_grad self column_grad (V # vs) = Inr [Some ?D]"
    using assms(1,2) by (simp add: axis_grad_def bindE_def subscript0_def)
  have p: "\<forall>i<m. \<forall>k<n. el ?D (i + k * m) i = d i ! k"
    by simp
  have z: "\<forall>r c. (\<forall>k<n. r \<noteq> c + k * m) \<or> m \<le> c \<longrightarrow> el ?D r c = 0"
  proof (intro allI impI)
    fix r c
    assume h: "(\<forall>k<n. r \<noteq> c + k * m) \<or> m \<le> c"
    show "el ?D r c = 0"
    proof (cases "c < m \<and> r mod m = c \<and> r div m < n")
      case True
      then have "r = c + (r div m) * m" by (metis mod_div_mult_eq)
      with True h show ?thesis by auto
    next
      case False
      then show ?thesis by auto
    qed
  qed
  have s: "shape ?D = (m * n, m)" by simp
  show ?thesis
  proof (intro conjI exI [of _ ?D])
    show "take_column (np_transpose V) i = (if i < m then Inr (V ! i) else Inl IndexError)"
      by (rule first)
    show "axis_grad self column_grad (V # vs) = Inr [Some ?D]" by (rule r)
    show "shape ?D = (m * n, m)" by (rule s)
    show "\<forall>i<m. \<forall>k<n. el ?D (i + k * m) i = d i ! k" by (rule p)
    show "\<forall>r c. (\<forall>k<n. r \<noteq> c + k * m) \<or> m \<le> c \<longrightarrow> el ?D r c = 0" by (rule z)
  qed
qed

theorem axis1_placement_witness:
  "wf_array 2 3 [[1, 2, 3], [4, 5, 6::int]]
   \<and> (\<exists>D. axis_grad \<lparr>axis = Some 1, arg_size = (2, 3)\<rparr> (\<lambda>v. Some (map (\<lambda>x. [x]) v))
             [[[1, 2, 3], [4, 5, 6::int]]] = Inr [Some D]
          \<and> shape D = (6, 2)
          \<and> el D 0 0 = 1 \<and> el D 2 0 = 2 \<and> el D 4 0 = 3
          \<and> el D 1 1 = 4 \<and> el D 3 1 = 5 \<and> el D 5 1 = 6
          \<and> el D 1 0 = 0 \<and> el D 0 1 = 0)"
proof -
  let ?V = "[[1, 2, 3], [4, 5, 6::int]]"
  let ?g = "\<lambda>v::int list. Some (map (\<lambda>x. [x]) v)"
  have w: "wf_array 2 3 ?V" by (simp add: wf_array_def)
  have g: "\<forall>i<2. \<exists>G. ?g (?V ! i) = Some G
           \<and> subscript0 (np_transpose G) = Inr (?V ! i) \<and> length (?V ! i) = 3"
    by (simp add: less_2_cases_iff subscript0_def np_transpose_def ncols_def upt_rec)
  from axis1_placement [of "\<lparr>axis = Some 1, arg_size = (2, 3)\<rparr>" 2 3 ?V ?g "\<lambda>i. ?V ! i" 0 "[]"] w g
  obtain D where r: "axis_grad \<lparr>axis = Some 1, arg_size = (2, 3)\<rparr> ?g [?V] = Inr [Some D]"
    and s: "shape D = (6, 2)"
    and p: "\<forall>i<2. \<forall>k<3. el D (i + k * 2) i = ?V ! i ! k"
    and z: "\<forall>r c. (\<forall>k<3. r \<noteq> c + k * 2) \<or> 2 \<le> c \<longrightarrow> el D r c = 0"
    by auto
  have e: "el D 0 0 = 1" "el D 2 0 = 2" "el D 4 0 = 3" "el D 1 1 = 4" "el D 3 1 = 5" "el D 5 1 = 6"
    using p [rule_format, of 0 0] p [rule_format, of 0 1] p [rule_format, of 0 2]
      p [rule_format, of 1 0] p [rule_format, of 1 1] p [rule_format, of 1 2]
    by (simp_all add: eval_nat_numeral)
  have "\<forall>k<3. (1::nat) \<noteq> 0 + k * 2" by presburger
  with z have z1: "el D 1 0 = 0" by blast
  have "\<forall>k<3. (0::nat) \<noteq> 1 + k * 2" by presburger
  with z have z2: "el D 0 1 = 0" by blast
  from w r s e z1 z2 show ?thesis by blast
qed

section \<open>The shape of the assembled gradient\<close>

text \<open>
  C7. For an operand of shape (m, n) with m, n at least 1, an axis among None, 0, 1 and
  a primitive that returns a column of k entries for a vector of k entries: whenever
  \<open>axis_grad\<close> returns a matrix, the matrix has m * n rows and as many columns as the
  output shape of \<open>size_from_args\<close> has entries, which is 1, n or m.
\<close>

theorem axis_grad_shape:
  fixes D :: "('a::monoid_add) sparse"
  assumes ax: "axis self = None \<or> axis self = Some 0 \<or> axis self = Some 1"
    and sz: "arg_size self = (m, n)" and m: "0 < m" and n: "0 < n"
    and ct: "column_grad_contract column_grad"
    and res: "axis_grad self column_grad values = Inr [Some D]"
  shows "shape D = (m * n, fst (size_from_args self) * snd (size_from_args self))
         \<and> fst (size_from_args self) * snd (size_from_args self)
             = (case axis self of None \<Rightarrow> 1 | Some a \<Rightarrow> if a = 0 then n else m)"
proof -
  have out: "fst (size_from_args self) * snd (size_from_args self)
             = (case axis self of None \<Rightarrow> 1 | Some a \<Rightarrow> if a = 0 then n else m)"
    using sz by (simp add: size_from_args_def split: option.splits)
  from ax consider (none) "axis self = None" | (zero) "axis self = Some 0" | (one) "axis self = Some 1"
    by auto
  then have "shape D = (m * n, (case axis self of None \<Rightarrow> 1 | Some a \<Rightarrow> if a = 0 then n else m))"
  proof cases
    case none
    with res sz obtain V vec G where "reshape_column (np_transpose V) (m * n) = Inr vec"
      and g: "column_grad vec = Some G" and d: "D = csc_of_dense G"
      by (auto simp: axis_grad_def bindE_def split: sum.splits)
    then have "length vec = m * n" by (auto simp: reshape_column_def split: if_splits)
    with m n contract_shape [OF ct g] d none show ?thesis by simp
  next
    case zero
    with res sz have "for_loop (column_body column_grad m n values) [0..<n] (csc_zeros (m * n, n))
        = Inr (Some D)"
      by (auto simp: axis_grad_def bindE_def split: sum.splits)
    from for_loop_shape [OF this column_body_shape] zero show ?thesis
      by (simp add: csc_zeros_def)
  next
    case one
    with res sz obtain V where
      "for_loop (row_body column_grad m n (np_transpose V)) [0..<m] (csc_zeros (m * n, m))
        = Inr (Some D)"
      by (auto simp: axis_grad_def bindE_def split: sum.splits)
    from for_loop_shape [OF this row_body_shape] one show ?thesis
      by (simp add: csc_zeros_def)
  qed
  with out show ?thesis by simp
qed

theorem axis_grad_shape_witness:
  "\<exists>D0 D1 D2.
     axis_grad \<lparr>axis = None, arg_size = (2, 2)\<rparr> (\<lambda>v. Some (map (\<lambda>x. [x]) v)) [[[1, 2], [3, 4::int]]]
       = Inr [Some D0] \<and> shape D0 = (4, 1)
   \<and> axis_grad \<lparr>axis = Some 0, arg_size = (2, 2)\<rparr> (\<lambda>v. Some (map (\<lambda>x. [x]) v)) [[[1, 2], [3, 4::int]]]
       = Inr [Some D1] \<and> shape D1 = (4, 2)
   \<and> axis_grad \<lparr>axis = Some 1, arg_size = (2, 2)\<rparr> (\<lambda>v. Some (map (\<lambda>x. [x]) v)) [[[1, 2], [3, 4::int]]]
       = Inr [Some D2] \<and> shape D2 = (4, 2)"
proof -
  let ?g = "\<lambda>v::int list. Some (map (\<lambda>x. [x]) v)"
  let ?vs = "[[[1, 2], [3, 4::int]]]"
  have c: "column_grad_contract ?g" by (auto simp: column_grad_contract_def)
  obtain D0 where e0: "axis_grad \<lparr>axis = None, arg_size = (2, 2)\<rparr> ?g ?vs = Inr [Some D0]"
    by (simp add: model_defs upt_rec)
  obtain D1 where e1: "axis_grad \<lparr>axis = Some 0, arg_size = (2, 2)\<rparr> ?g ?vs = Inr [Some D1]"
    by (simp add: model_defs upt_rec)
  obtain D2 where e2: "axis_grad \<lparr>axis = Some 1, arg_size = (2, 2)\<rparr> ?g ?vs = Inr [Some D2]"
    by (simp add: model_defs upt_rec)
  have s0: "shape D0 = (4, 1)"
    using axis_grad_shape [OF _ _ _ _ c e0, of 2 2] by (simp add: size_from_args_def)
  have s1: "shape D1 = (4, 2)"
    using axis_grad_shape [OF _ _ _ _ c e1, of 2 2] by (simp add: size_from_args_def)
  have s2: "shape D2 = (4, 2)"
    using axis_grad_shape [OF _ _ _ _ c e2, of 2 2] by (simp add: size_from_args_def)
  from e0 e1 e2 s0 s1 s2 show ?thesis by blast
qed

section \<open>A slice without a gradient\<close>

text \<open>
  C1. The source applies \<^verbatim>\<open>.T\<close> to what the primitive returned before it tests
  \<^verbatim>\<open>d is None\<close>. Evaluated where the primitive returns \<^verbatim>\<open>None\<close> for a slice (for
  the second slice of a 2 by 2 operand along axis 0 and along axis 1, and for the only
  slice of a 1 by 1 operand), \<open>axis_grad\<close> raises AttributeError; it does not return
  \<open>[None]\<close>.
\<close>

theorem none_check_unreachable:
  "axis_grad \<lparr>axis = Some 0, arg_size = (2, 2)\<rparr>
       (\<lambda>v. if v = [1, 3] then Some [[1], [0]] else None) [[[1, 2], [3, 4::int]]]
     = Inl AttributeError
   \<and> axis_grad \<lparr>axis = Some 1, arg_size = (2, 2)\<rparr>
       (\<lambda>v. if v = [1, 2] then Some [[1], [0]] else None) [[[1, 2], [3, 4::int]]]
     = Inl AttributeError
   \<and> axis_grad \<lparr>axis = Some 0, arg_size = (1, 1)\<rparr> (\<lambda>v. None) [[[5::int]]] = Inl AttributeError"
  by (simp add: model_defs upt_rec)

section \<open>Gradient assembly along axis 0\<close>

text \<open>
  C2. Evaluated on an operand of shape (2, 3) along axis 0, with a primitive that
  returns the column (1, 2) for every slice: the rows computed for slice 2 are 6 and 7,
  outside a matrix of 2 * 3 = 6 rows, the sparse constructor raises ValueError and no
  matrix is returned.
\<close>

theorem axis0_wide_operand_fails:
  "linspace (2 * 3) (2 * 3 + 2 - 1) 2 = [6, 7]
   \<and> axis_grad \<lparr>axis = Some 0, arg_size = (2, 3)\<rparr> (\<lambda>v. Some [[1], [2]])
       [[[1, 2, 3], [4, 5, 6::int]]] = Inl ValueError"
  by (simp add: model_defs upt_rec)

text \<open>
  C8. Evaluated on an operand of shape (3, 2) along axis 0: the rows of slice 0 are
  0, 1, 2 and the rows of slice 1 are 2, 3, 4, so the two row ranges share row 2. With
  the primitive that returns its argument as a column, the assembled matrix holds the
  entries of slice 1 at rows 2, 3, 4 of column 1, whereas the flattened operand has the
  entries of column 1 at indices 3, 4, 5.
\<close>

theorem axis0_tall_operand_rows_overlap:
  "linspace (0 * 2) (0 * 2 + 3 - 1) 3 = [0, 1, 2]
   \<and> linspace (1 * 2) (1 * 2 + 3 - 1) 3 = [2, 3, 4]
   \<and> concat (np_transpose [[1, 2], [3, 4], [5, 6::int]]) = [1, 3, 5, 2, 4, 6]
   \<and> (\<exists>D. axis_grad \<lparr>axis = Some 0, arg_size = (3, 2)\<rparr> (\<lambda>v. Some (map (\<lambda>x. [x]) v))
             [[[1, 2], [3, 4], [5, 6::int]]] = Inr [Some D]
          \<and> map (\<lambda>r. map (el D r) [0..<2]) [0..<6]
              = [[1, 0], [3, 0], [5, 2], [0, 4], [0, 6], [0, 0]])"
  by (simp add: model_defs upt_rec)

end
